theory Spec2Isabelle
  imports Main "HOL-Library.AList" "HOL-Library.Char_ord" "HOL-Library.List_Lexorder"
begin

section \<open>Bytes, errors and the output stream\<close>

text \<open>
  Go strings and byte slices are sequences of bytes; \<^typ>\<open>char\<close> is a byte. The output
  stream \<open>w io.Writer\<close> is modelled as the bytes written so far, as with the
  \<open>bytes.Buffer\<close> the tests write into: a write appends and never fails.
\<close>

type_synonym bytes = string

type_synonym Writer = bytes

definition newline :: char where
  "newline = CHR 0x0A"

definition Write :: "Writer \<Rightarrow> bytes \<Rightarrow> Writer" where
  "Write w p = w @ p"

text \<open>
  The errors that reach this package: \<open>encoding/json\<close> rejecting a value of a type it
  cannot encode, and whatever error another implementation of the interfaces returns.
\<close>

datatype error = UnsupportedTypeError string | ErrorString string

fun Error :: "error \<Rightarrow> string" where
  "Error (UnsupportedTypeError t) = ''json: unsupported type: '' @ t"
| "Error (ErrorString s) = s"

section \<open>The standard library the package calls\<close>

subsection \<open>\<open>strings.Join\<close> and \<open>bytes.Join\<close>\<close>

fun Join :: "string list \<Rightarrow> string \<Rightarrow> string" where
  "Join [] sep = []"
| "Join [e] sep = e"
| "Join (e # es) sep = e @ concat (map (\<lambda>s. sep @ s) es)"

subsection \<open>\<open>url.Values\<close>\<close>

text \<open>
  \<open>url.Values\<close> is \<open>map[string][]string\<close>. \<open>None\<close> is the nil map; \<open>Some m\<close> is a map
  whose entries are the key's first binding in the association list \<open>m\<close>, and whose order
  of iteration (which Go leaves unspecified) is the order of \<open>m\<close>.
\<close>

type_synonym Values = "(string \<times> string list) list option"

fun Get :: "Values \<Rightarrow> string \<Rightarrow> string" where
  "Get None key = []"
| "Get (Some m) key =
     (case map_of m key of
        None \<Rightarrow> []
      | Some [] \<Rightarrow> []
      | Some (v # vs) \<Rightarrow> v)"

fun range_keys :: "Values \<Rightarrow> string list" where
  "range_keys None = []"
| "range_keys (Some m) = map fst m"

subsection \<open>\<open>encoding/json\<close>\<close>

text \<open>
  A Go value as \<open>encoding/json\<close> sees it. A map is encoded with its keys sorted, a struct
  with its fields in the order of declaration; \<open>VUnsupported t\<close> is a value of a type \<open>t\<close>
  that cannot be encoded (a channel, a function, a complex number).
\<close>

datatype "value" =
    VNil
  | VBool bool
  | VInt int
  | VString string
  | VSlice "value list"
  | VMap "(string \<times> value) list"
  | VStruct "(string \<times> value) list"
  | VUnsupported string

definition digit :: "nat \<Rightarrow> char" where
  "digit d = char_of (48 + d)"

fun FormatUint :: "nat \<Rightarrow> string" where
  "FormatUint n = (if n < 10 then [digit n] else FormatUint (n div 10) @ [digit (n mod 10)])"

declare FormatUint.simps [simp del]

definition FormatInt :: "int \<Rightarrow> string" where
  "FormatInt i = (if i < 0 then CHR ''-'' # FormatUint (nat (- i)) else FormatUint (nat i))"

text \<open>
  \<open>utf8.DecodeRuneInString\<close>: the rune at the head of a string and the number of bytes of
  its encoding; \<open>(RuneError, 1)\<close> for an invalid encoding. \<open>acceptRange\<close> is the table
  \<open>first\<close> with \<open>acceptRanges\<close>: for a leading byte, the size of the encoding and the range
  of the second byte.
\<close>

definition RuneError :: nat where
  "RuneError = 0xFFFD"

definition acceptRange :: "nat \<Rightarrow> (nat \<times> nat \<times> nat) option" where
  "acceptRange b =
     (if 0xC2 \<le> b \<and> b \<le> 0xDF then Some (2, 0x80, 0xBF)
      else if b = 0xE0 then Some (3, 0xA0, 0xBF)
      else if 0xE1 \<le> b \<and> b \<le> 0xEC then Some (3, 0x80, 0xBF)
      else if b = 0xED then Some (3, 0x80, 0x9F)
      else if b = 0xEE \<or> b = 0xEF then Some (3, 0x80, 0xBF)
      else if b = 0xF0 then Some (4, 0x90, 0xBF)
      else if 0xF1 \<le> b \<and> b \<le> 0xF3 then Some (4, 0x80, 0xBF)
      else if b = 0xF4 then Some (4, 0x80, 0x8F)
      else None)"

definition DecodeRuneInString :: "string \<Rightarrow> nat \<times> nat" where
  "DecodeRuneInString s =
     (if s = [] then (RuneError, 0)
      else let s0 = of_char (s ! 0) in
        if s0 < 0x80 then (s0, 1)
        else case acceptRange s0 of
          None \<Rightarrow> (RuneError, 1)
        | Some (sz, lo, hi) \<Rightarrow>
            if length s < sz then (RuneError, 1)
            else let s1 = of_char (s ! 1) in
              if s1 < lo \<or> hi < s1 then (RuneError, 1)
              else if sz \<le> 2 then ((s0 mod 32) * 64 + s1 mod 64, 2)
              else let s2 = of_char (s ! 2) in
                if s2 < 0x80 \<or> 0xBF < s2 then (RuneError, 1)
                else if sz \<le> 3 then ((s0 mod 16) * 4096 + (s1 mod 64) * 64 + s2 mod 64, 3)
                else let s3 = of_char (s ! 3) in
                  if s3 < 0x80 \<or> 0xBF < s3 then (RuneError, 1)
                  else ((s0 mod 8) * 262144 + (s1 mod 64) * 4096 + (s2 mod 64) * 64
                          + s3 mod 64, 4))"

text \<open>
  The string encoder of \<open>encoding/json\<close> with HTML escaping, which \<open>Marshal\<close> and
  \<open>Encoder.Encode\<close> use (as of Go 1.22, which escapes backspace and form feed in the
  short form): \<open>htmlSafe\<close> is the table \<open>htmlSafeSet\<close>, \<open>escape\<close> the switch on an ASCII byte
  outside it, \<open>appendString\<close> the loop over the string. An invalid UTF-8 byte becomes
  the escape of U+FFFD, the line separators U+2028 and U+2029 are escaped, and every other
  multi-byte rune is copied as it is.
\<close>

definition backslash :: char where
  "backslash = CHR 0x5C"

definition dquote :: char where
  "dquote = CHR 0x22"

definition htmlSafe :: "char \<Rightarrow> bool" where
  "htmlSafe b \<longleftrightarrow>
     0x20 \<le> (of_char b :: nat) \<and> (of_char b :: nat) < 0x80
     \<and> b \<noteq> dquote \<and> b \<noteq> CHR ''&'' \<and> b \<noteq> CHR ''<'' \<and> b \<noteq> CHR ''>'' \<and> b \<noteq> backslash"

definition hex :: "nat \<Rightarrow> char" where
  "hex n = ''0123456789abcdef'' ! n"

definition escape :: "char \<Rightarrow> string" where
  "escape b =
     (if b = backslash \<or> b = dquote then [backslash, b]
      else if b = CHR 0x08 then [backslash, CHR ''b'']
      else if b = CHR 0x0C then [backslash, CHR ''f'']
      else if b = CHR 0x0A then [backslash, CHR ''n'']
      else if b = CHR 0x0D then [backslash, CHR ''r'']
      else if b = CHR 0x09 then [backslash, CHR ''t'']
      else [backslash, CHR ''u'', CHR ''0'', CHR ''0'',
            hex (of_char b div 16), hex (of_char b mod 16)])"

function escapeFrom :: "string \<Rightarrow> string" where
  "escapeFrom [] = []"
| "escapeFrom (b # s) =
     (if (of_char b :: nat) < 0x80 then
        (if htmlSafe b then [b] else escape b) @ escapeFrom s
      else
        (case DecodeRuneInString (b # s) of (c, n) \<Rightarrow>
           if c = RuneError \<and> n = 1 then
             [backslash, CHR ''u'', CHR ''f'', CHR ''f'', CHR ''f'', CHR ''d''] @ escapeFrom s
           else if c = 0x2028 \<or> c = 0x2029 then
             [backslash, CHR ''u'', CHR ''2'', CHR ''0'', CHR ''2'', hex (c mod 16)]
               @ escapeFrom (drop n (b # s))
           else take n (b # s) @ escapeFrom (drop n (b # s))))"
  by pat_completeness auto
termination
proof (relation "measure length")
  fix b :: char and s :: string and x :: "nat \<times> nat" and c n :: nat
  assume "(c, n) = DecodeRuneInString (b # s)"
  then have "snd (DecodeRuneInString (b # s)) = n"
    by (metis snd_conv)
  then have "0 < n"
    by (auto simp add: DecodeRuneInString_def Let_def split: option.splits prod.splits if_splits)
  then show "(drop n (b # s), b # s) \<in> measure length"
    by simp
  then show "(drop n (b # s), b # s) \<in> measure length" .
qed simp_all

definition appendString :: "string \<Rightarrow> bytes" where
  "appendString s = dquote # escapeFrom s @ [dquote]"

text \<open>
  \<open>json.Marshal\<close>: the compact encoding, or the error of the first value that cannot be
  encoded. \<open>sequence\<close> collects the encodings of the elements up to the first error.
\<close>

fun sequence :: "(error + 'a) list \<Rightarrow> error + 'a list" where
  "sequence [] = Inr []"
| "sequence (Inl e # rs) = Inl e"
| "sequence (Inr x # rs) = (case sequence rs of Inl e \<Rightarrow> Inl e | Inr xs \<Rightarrow> Inr (x # xs))"

definition array :: "(error + bytes) list \<Rightarrow> error + bytes" where
  "array rs =
     (case sequence rs of
        Inl e \<Rightarrow> Inl e
      | Inr bs \<Rightarrow> Inr (''['' @ Join bs '','' @ '']''))"

definition field :: "string \<times> (error + bytes) \<Rightarrow> error + bytes" where
  "field kv =
     (case snd kv of
        Inl e \<Rightarrow> Inl e
      | Inr b \<Rightarrow> Inr (appendString (fst kv) @ '':'' @ b))"

definition object :: "(string \<times> (error + bytes)) list \<Rightarrow> error + bytes" where
  "object fs =
     (case sequence (map field fs) of
        Inl e \<Rightarrow> Inl e
      | Inr bs \<Rightarrow> Inr (''{'' @ Join bs '','' @ ''}''))"

primrec Marshal :: "value \<Rightarrow> error + bytes" where
  "Marshal VNil = Inr ''null''"
| "Marshal (VBool b) = Inr (if b then ''true'' else ''false'')"
| "Marshal (VInt i) = Inr (FormatInt i)"
| "Marshal (VString s) = Inr (appendString s)"
| "Marshal (VSlice xs) = array (map Marshal xs)"
| "Marshal (VMap m) = object (sort_key fst (map (map_prod id Marshal) m))"
| "Marshal (VStruct fs) = object (map (map_prod id Marshal) fs)"
| "Marshal (VUnsupported t) = Inl (UnsupportedTypeError t)"

text \<open>
  \<open>json.NewEncoder(w).Encode(v)\<close>: the encoding of \<open>v\<close> followed by a newline is written
  to \<open>w\<close>; when \<open>v\<close> cannot be encoded nothing is written and the error is returned.
\<close>

definition Encode :: "value \<Rightarrow> Writer \<Rightarrow> error option \<times> Writer" where
  "Encode v w =
     (case Marshal v of
        Inl err \<Rightarrow> (Some err, w)
      | Inr b \<Rightarrow> (None, Write w (b @ [newline])))"

section \<open>Search requests (\<open>requests.go\<close>)\<close>

record SearchRequest =
  Indices :: "string list"
  Types :: "string list"
  Query :: "value"
  Params :: Values

datatype panic = Panic string

text \<open>
  \<open>Path\<close> is a switch over four conditions followed by \<open>panic("unreachable")\<close>;
  \<open>fmt.Sprintf\<close> with \<open>%s\<close> verbs is concatenation.
\<close>

definition SearchRequest_Path :: "SearchRequest \<Rightarrow> panic + string" where
  "SearchRequest_Path r =
     (if length (Indices r) = 0 \<and> length (Types r) = 0 then
        Inr ''/_search''
      else if length (Indices r) > 0 \<and> length (Types r) = 0 then
        Inr (''/'' @ Join (Indices r) '','' @ ''/_search'')
      else if length (Indices r) = 0 \<and> length (Types r) > 0 then
        Inr (''/_all/'' @ Join (Types r) '','' @ ''/_search'')
      else if length (Indices r) > 0 \<and> length (Types r) > 0 then
        Inr (''/'' @ Join (Indices r) '','' @ ''/'' @ Join (Types r) '','' @ ''/_search'')
      else Inl (Panic ''unreachable''))"

definition SearchRequest_Values :: "SearchRequest \<Rightarrow> Values" where
  "SearchRequest_Values r = (if Params r = None then Some [] else Params r)"

definition SearchRequest_Serialize :: "SearchRequest \<Rightarrow> Writer \<Rightarrow> error option \<times> Writer" where
  "SearchRequest_Serialize r w = Encode (Query r) w"

text \<open>
  The struct \<open>headerLine\<close> has two slice fields tagged \<open>index,omitempty\<close> and
  \<open>type,omitempty\<close>: a field whose slice has length 0 is left out.
\<close>

definition omitempty :: "string \<Rightarrow> string list \<Rightarrow> (string \<times> value) list" where
  "omitempty name xs = (if length xs = 0 then [] else [(name, VSlice (map VString xs))])"

definition headerLine :: "string list \<Rightarrow> string list \<Rightarrow> value" where
  "headerLine is ts = VStruct (omitempty ''index'' is @ omitempty ''type'' ts)"

definition SearchRequest_SerializeBatchHeader ::
  "SearchRequest \<Rightarrow> Writer \<Rightarrow> error option \<times> Writer" where
  "SearchRequest_SerializeBatchHeader r w = Encode (headerLine (Indices r) (Types r)) w"

section \<open>Index, create, update and delete requests\<close>

text \<open>
  \<open>actionMetadata\<close>: the local map \<open>metadata\<close> starts with the three base fields; the
  loop over the keys of \<open>v\<close> then assigns \<open>metadata[k] = v.Get(k)\<close>. The result is the
  one-entry map from the action to that metadata.
\<close>

definition metadata :: "string \<Rightarrow> string \<Rightarrow> string \<Rightarrow> Values \<Rightarrow> (string \<times> string) list" where
  "metadata index t docid v =
     fold (\<lambda>k m. AList.update k (Get v k) m) (range_keys v)
       [(''_index'', index), (''_type'', t), (''_id'', docid)]"

definition actionMetadata ::
  "string \<Rightarrow> string \<Rightarrow> string \<Rightarrow> string \<Rightarrow> Values \<Rightarrow> (string \<times> value) list" where
  "actionMetadata action index t docid v =
     [(action, VMap (map (map_prod id VString) (metadata index t docid v)))]"

record IndexRequest =
  Index :: string
  Type :: string
  Id :: string
  Params :: Values
  Source :: "value"

definition IndexRequest_Values :: "IndexRequest \<Rightarrow> Values" where
  "IndexRequest_Values r = IndexRequest.Params r"

definition IndexRequest_Serialize :: "IndexRequest \<Rightarrow> Writer \<Rightarrow> error option \<times> Writer" where
  "IndexRequest_Serialize r w = Encode (IndexRequest.Source r) w"

definition IndexRequest_SerializeBatchHeader ::
  "IndexRequest \<Rightarrow> Writer \<Rightarrow> error option \<times> Writer" where
  "IndexRequest_SerializeBatchHeader r w =
     Encode (VMap (actionMetadata ''index'' (IndexRequest.Index r) (IndexRequest.Type r)
       (IndexRequest.Id r) (IndexRequest.Params r))) w"

record CreateRequest =
  Index :: string
  Type :: string
  Id :: string
  Params :: Values
  Source :: "value"

definition CreateRequest_Values :: "CreateRequest \<Rightarrow> Values" where
  "CreateRequest_Values r = CreateRequest.Params r"

definition CreateRequest_Serialize :: "CreateRequest \<Rightarrow> Writer \<Rightarrow> error option \<times> Writer" where
  "CreateRequest_Serialize r w = Encode (CreateRequest.Source r) w"

definition CreateRequest_SerializeBatchHeader ::
  "CreateRequest \<Rightarrow> Writer \<Rightarrow> error option \<times> Writer" where
  "CreateRequest_SerializeBatchHeader r w =
     Encode (VMap (actionMetadata ''create'' (CreateRequest.Index r) (CreateRequest.Type r)
       (CreateRequest.Id r) (CreateRequest.Params r))) w"

record UpdateRequest =
  Index :: string
  Type :: string
  Id :: string
  Params :: Values
  Source :: "value"

definition UpdateRequest_Values :: "UpdateRequest \<Rightarrow> Values" where
  "UpdateRequest_Values r = UpdateRequest.Params r"

definition UpdateRequest_Serialize :: "UpdateRequest \<Rightarrow> Writer \<Rightarrow> error option \<times> Writer" where
  "UpdateRequest_Serialize r w = Encode (UpdateRequest.Source r) w"

definition UpdateRequest_SerializeBatchHeader ::
  "UpdateRequest \<Rightarrow> Writer \<Rightarrow> error option \<times> Writer" where
  "UpdateRequest_SerializeBatchHeader r w =
     Encode (VMap (actionMetadata ''update'' (UpdateRequest.Index r) (UpdateRequest.Type r)
       (UpdateRequest.Id r) (UpdateRequest.Params r))) w"

record DeleteRequest =
  Index :: string
  Type :: string
  Id :: string
  Params :: Values

definition DeleteRequest_Values :: "DeleteRequest \<Rightarrow> Values" where
  "DeleteRequest_Values r = DeleteRequest.Params r"

definition DeleteRequest_Serialize :: "DeleteRequest \<Rightarrow> Writer \<Rightarrow> error option \<times> Writer" where
  "DeleteRequest_Serialize r w = (None, w)"

definition DeleteRequest_SerializeBatchHeader ::
  "DeleteRequest \<Rightarrow> Writer \<Rightarrow> error option \<times> Writer" where
  "DeleteRequest_SerializeBatchHeader r w =
     Encode (VMap (actionMetadata ''delete'' (DeleteRequest.Index r) (DeleteRequest.Type r)
       (DeleteRequest.Id r) (DeleteRequest.Params r))) w"

section \<open>The interface \<open>BatchFireable\<close> and the batch requests\<close>

text \<open>
  A value of the interface type \<open>BatchFireable\<close> is one of the five request types of the
  package, or a value of a type declared elsewhere: \<open>OtherOp h b\<close> stands for such a
  value, \<open>h\<close> being the error its \<open>SerializeBatchHeader\<close> returns with the bytes it
  writes, and \<open>b\<close> the same for its \<open>Serialize\<close>.
\<close>

datatype BatchFireable =
    SearchOp SearchRequest
  | IndexOp IndexRequest
  | CreateOp CreateRequest
  | UpdateOp UpdateRequest
  | DeleteOp DeleteRequest
  | OtherOp "error option \<times> bytes" "error option \<times> bytes"

fun SerializeBatchHeader :: "BatchFireable \<Rightarrow> Writer \<Rightarrow> error option \<times> Writer" where
  "SerializeBatchHeader (SearchOp r) w = SearchRequest_SerializeBatchHeader r w"
| "SerializeBatchHeader (IndexOp r) w = IndexRequest_SerializeBatchHeader r w"
| "SerializeBatchHeader (CreateOp r) w = CreateRequest_SerializeBatchHeader r w"
| "SerializeBatchHeader (UpdateOp r) w = UpdateRequest_SerializeBatchHeader r w"
| "SerializeBatchHeader (DeleteOp r) w = DeleteRequest_SerializeBatchHeader r w"
| "SerializeBatchHeader (OtherOp h b) w = (fst h, Write w (snd h))"

fun Serialize :: "BatchFireable \<Rightarrow> Writer \<Rightarrow> error option \<times> Writer" where
  "Serialize (SearchOp r) w = SearchRequest_Serialize r w"
| "Serialize (IndexOp r) w = IndexRequest_Serialize r w"
| "Serialize (CreateOp r) w = CreateRequest_Serialize r w"
| "Serialize (UpdateOp r) w = UpdateRequest_Serialize r w"
| "Serialize (DeleteOp r) w = DeleteRequest_Serialize r w"
| "Serialize (OtherOp h b) w = (fst b, Write w (snd b))"

text \<open>
  \<open>BulkIndexRequest.Serialize\<close>: the loop returns at the first error.
\<close>

fun BulkIndexRequest_Serialize :: "BatchFireable list \<Rightarrow> Writer \<Rightarrow> error option \<times> Writer" where
  "BulkIndexRequest_Serialize [] w = (None, w)"
| "BulkIndexRequest_Serialize (request # br) w =
     (case SerializeBatchHeader request w of
        (Some err, w1) \<Rightarrow> (Some err, w1)
      | (None, w1) \<Rightarrow>
          (case Serialize request w1 of
             (Some err, w2) \<Rightarrow> (Some err, w2)
           | (None, w2) \<Rightarrow> BulkIndexRequest_Serialize br w2))"

text \<open>
  \<open>MultiSearchRequest.Serialize\<close>: an error is passed to \<open>log.Printf\<close> and the loop
  continues with the next member. The log is the list of the messages printed so far.
\<close>

definition Printf :: "string list \<Rightarrow> string \<Rightarrow> error \<Rightarrow> string list" where
  "Printf lg prefix err = lg @ [prefix @ Error err]"

fun MultiSearchRequest_Serialize ::
  "BatchFireable list \<Rightarrow> Writer \<Rightarrow> string list \<Rightarrow> error option \<times> Writer \<times> string list" where
  "MultiSearchRequest_Serialize [] w lg = (None, w, lg)"
| "MultiSearchRequest_Serialize (searchRequest # r) w lg =
     (case SerializeBatchHeader searchRequest w of
        (Some err, w1) \<Rightarrow>
          MultiSearchRequest_Serialize r w1
            (Printf lg ''ElasticSearch: MultiSearchRequest Body header: '' err)
      | (None, w1) \<Rightarrow>
          (case Serialize searchRequest w1 of
             (Some err, w2) \<Rightarrow>
               MultiSearchRequest_Serialize r w2
                 (Printf lg ''ElasticSearch: MultiSearchRequest Body body: '' err)
           | (None, w2) \<Rightarrow> MultiSearchRequest_Serialize r w2 lg))"

section \<open>The buffered multi-search body\<close>

text \<open>
  The other version of the multi-search request holds \<open>SearchRequest\<close> values and
  builds its body in memory: \<open>Body\<close> collects the header and the body of each member
  that encodes, joins the lines with newlines and appends the trailing newline.
\<close>

definition SearchRequest_Body :: "SearchRequest \<Rightarrow> error + bytes" where
  "SearchRequest_Body r = Marshal (Query r)"

fun Body_loop ::
  "SearchRequest list \<Rightarrow> bytes list \<Rightarrow> string list \<Rightarrow> bytes list \<times> string list" where
  "Body_loop [] lines lg = (lines, lg)"
| "Body_loop (searchRequest # r) lines lg =
     (case Marshal (headerLine (Indices searchRequest) (Types searchRequest)) of
        Inl err \<Rightarrow>
          Body_loop r lines (Printf lg ''ElasticSearch: MultiSearchRequest Body header: '' err)
      | Inr headerBuf \<Rightarrow>
          (case SearchRequest_Body searchRequest of
             Inl err \<Rightarrow>
               Body_loop r lines
                 (Printf lg ''ElasticSearch: MultiSearchRequest Body body: '' err)
           | Inr bodyBuf \<Rightarrow> Body_loop r ((lines @ [headerBuf]) @ [bodyBuf]) lg))"

definition MultiSearchRequest_Body ::
  "SearchRequest list \<Rightarrow> string list \<Rightarrow> (bytes \<times> error option) \<times> string list" where
  "MultiSearchRequest_Body r lg =
     (case Body_loop r [] lg of
        (lines, lg') \<Rightarrow> ((Join lines [newline] @ [newline], None), lg'))"

section \<open>What a member writes\<close>

text \<open>
  The error a member's method returns and the bytes it writes, observed on an empty
  buffer; \<open>written\<close> is what one round of the multi-search loop adds to the output for
  a member and \<open>diagnostic\<close> what it prints to the log.
\<close>

definition header_error :: "BatchFireable \<Rightarrow> error option" where
  "header_error op = fst (SerializeBatchHeader op [])"

definition header_bytes :: "BatchFireable \<Rightarrow> bytes" where
  "header_bytes op = snd (SerializeBatchHeader op [])"

definition body_error :: "BatchFireable \<Rightarrow> error option" where
  "body_error op = fst (Serialize op [])"

definition body_bytes :: "BatchFireable \<Rightarrow> bytes" where
  "body_bytes op = snd (Serialize op [])"

definition diagnostic :: "BatchFireable \<Rightarrow> string list" where
  "diagnostic op =
     (case header_error op of
        Some err \<Rightarrow> [''ElasticSearch: MultiSearchRequest Body header: '' @ Error err]
      | None \<Rightarrow>
          (case body_error op of
             Some err \<Rightarrow> [''ElasticSearch: MultiSearchRequest Body body: '' @ Error err]
           | None \<Rightarrow> []))"

definition written :: "BatchFireable \<Rightarrow> bytes" where
  "written op = header_bytes op @ (if header_error op = None then body_bytes op else [])"

section \<open>Example requests\<close>

text \<open>
  \<open>test_index\<close> and \<open>test_delete\<close> are the two members of \<open>TestBulkIndexRequest\<close>.
  \<open>bad_index\<close> has a source that cannot be encoded and an option \<open>_id\<close> with two
  values; \<open>bad_search\<close> has a query that cannot be encoded.
\<close>

definition test_index :: IndexRequest where
  "test_index = \<lparr>IndexRequest.Index = ''foo'', IndexRequest.Type = ''bar'',
     IndexRequest.Id = ''123'', IndexRequest.Params = Some [(''refresh'', [''true''])],
     IndexRequest.Source = VMap [(''name'', VString ''John'')]\<rparr>"

definition test_delete :: DeleteRequest where
  "test_delete = \<lparr>DeleteRequest.Index = ''foo'', DeleteRequest.Type = ''bar'',
     DeleteRequest.Id = ''321'', DeleteRequest.Params = None\<rparr>"

definition test_create :: CreateRequest where
  "test_create = \<lparr>CreateRequest.Index = ''foo'', CreateRequest.Type = ''bar'',
     CreateRequest.Id = ''123'', CreateRequest.Params = Some [(''refresh'', [''true''])],
     CreateRequest.Source = VMap [(''name'', VString ''John''), (''age'', VInt 24)]\<rparr>"

definition test_update :: UpdateRequest where
  "test_update = \<lparr>UpdateRequest.Index = ''foo'', UpdateRequest.Type = ''bar'',
     UpdateRequest.Id = ''123'', UpdateRequest.Params = Some [(''refresh'', [''true''])],
     UpdateRequest.Source = VMap [(''name'', VString ''John''), (''age'', VInt 24)]\<rparr>"

definition bad_index :: IndexRequest where
  "bad_index = \<lparr>IndexRequest.Index = ''foo'', IndexRequest.Type = ''bar'',
     IndexRequest.Id = ''124'', IndexRequest.Params = Some [(''_id'', [''7'', ''8''])],
     IndexRequest.Source = VUnsupported ''chan int''\<rparr>"

definition good_search :: SearchRequest where
  "good_search = \<lparr>Indices = [''a''], Types = [], Query = VMap [(''q'', VString ''x'')],
     SearchRequest.Params = None\<rparr>"

definition bad_search :: SearchRequest where
  "bad_search = \<lparr>Indices = [''b''], Types = [], Query = VUnsupported ''chan int'',
     SearchRequest.Params = None\<rparr>"

section \<open>The encoder never writes a raw newline\<close>

lemma digit_not_newline: "d < 10 \<Longrightarrow> digit d \<noteq> newline"
proof
  assume d: "d < 10" and eq: "digit d = newline"
  have "(of_char (digit d) :: nat) = (48 + d) mod 256"
    by (simp add: digit_def)
  also have "\<dots> = 48 + d" using d by simp
  finally have "(of_char (digit d) :: nat) = 48 + d" .
  moreover have "(of_char newline :: nat) = 10" by (simp add: newline_def)
  ultimately show False using eq by simp
qed

lemma FormatUint_no_newline: "newline \<notin> set (FormatUint n)"
proof (induction n rule: FormatUint.induct)
  case (1 n)
  show ?case
  proof (cases "n < 10")
    case True
    then show ?thesis using digit_not_newline [of n] by (subst FormatUint.simps) auto
  next
    case False
    have "n mod 10 < 10" by simp
    then have "digit (n mod 10) \<noteq> newline" by (rule digit_not_newline)
    with False 1 show ?thesis by (subst FormatUint.simps) auto
  qed
qed

lemma FormatInt_no_newline: "newline \<notin> set (FormatInt i)"
  by (simp add: FormatInt_def FormatUint_no_newline) (simp add: newline_def)

lemma hex_not_newline: "n < 16 \<Longrightarrow> hex n \<noteq> newline"
proof -
  assume "n < 16"
  then have "hex n \<in> set ''0123456789abcdef''"
    unfolding hex_def by (intro nth_mem) simp
  then show ?thesis by (auto simp add: newline_def)
qed

lemma of_char_div16: "(of_char b :: nat) div 16 < 16"
proof -
  have "(of_char b :: nat) < 256" by simp
  then show ?thesis by arith
qed

lemma escape_no_newline: "newline \<notin> set (escape b)"
proof -
  have h1: "hex (of_char b div 16) \<noteq> newline"
    by (rule hex_not_newline [OF of_char_div16])
  have h2: "hex (of_char b mod 16) \<noteq> newline"
    by (rule hex_not_newline) simp
  show ?thesis
    using h1 h2 by (auto simp add: escape_def backslash_def dquote_def newline_def)
qed

lemma htmlSafe_not_newline: "htmlSafe b \<Longrightarrow> b \<noteq> newline"
  by (auto simp add: htmlSafe_def newline_def)

lemma acceptRange_Some:
  "acceptRange b = Some (sz, lo, hi) \<Longrightarrow> (sz = 2 \<or> sz = 3 \<or> sz = 4) \<and> 0x80 \<le> lo"
  by (auto simp add: acceptRange_def split: if_splits)

lemma set_take_nth: "x \<in> set (take n xs) \<Longrightarrow> \<exists>i. i < n \<and> i < length xs \<and> x = xs ! i"
  by (auto simp add: in_set_conv_nth)

lemma DecodeRuneInString_bytes:
  assumes dec: "DecodeRuneInString xs = (c, n)" and hi: "\<not> (of_char (xs ! 0) :: nat) < 0x80"
    and ok: "\<not> (c = RuneError \<and> n = 1)" and ne: "xs \<noteq> []"
  shows "\<forall>x \<in> set (take n xs). 0x80 \<le> (of_char x :: nat)"
proof (cases "acceptRange (of_char (xs ! 0))")
  case None
  with dec hi ok ne show ?thesis
    by (simp add: DecodeRuneInString_def Let_def)
next
  case (Some a)
  obtain sz lo hi' where a: "a = (sz, lo, hi')" by (cases a)
  from Some a have ar: "acceptRange (of_char (xs ! 0)) = Some (sz, lo, hi')" by simp
  from acceptRange_Some [OF ar] have sz: "sz = 2 \<or> sz = 3 \<or> sz = 4" and lo: "0x80 \<le> lo"
    by auto
  from dec hi ok ne ar sz have n: "n = sz" and len: "sz \<le> length xs"
    and b1: "lo \<le> (of_char (xs ! 1) :: nat)"
    by (auto simp add: DecodeRuneInString_def Let_def split: if_splits)
  from dec hi ok ne ar have b2: "2 < sz \<Longrightarrow> 0x80 \<le> (of_char (xs ! 2) :: nat)"
    by (auto simp add: DecodeRuneInString_def Let_def split: if_splits)
  from dec hi ok ne ar have b3: "3 < sz \<Longrightarrow> 0x80 \<le> (of_char (xs ! 3) :: nat)"
    by (auto simp add: DecodeRuneInString_def Let_def split: if_splits)
  show ?thesis
  proof
    fix x assume "x \<in> set (take n xs)"
    then obtain i where i: "i < n" "x = xs ! i" by (auto dest: set_take_nth)
    from i n sz have "i = 0 \<or> i = 1 \<or> (i = 2 \<and> 2 < sz) \<or> (i = 3 \<and> 3 < sz)" by arith
    then show "0x80 \<le> (of_char x :: nat)"
      using hi b1 lo b2 b3 i by auto
  qed
qed

lemma escapeFrom_no_newline: "newline \<notin> set (escapeFrom s)"
proof (induction s rule: escapeFrom.induct)
  case 1
  show ?case by simp
next
  case (2 b s)
  show ?case
  proof (cases "(of_char b :: nat) < 0x80")
    case True
    with 2(1) htmlSafe_not_newline [of b] escape_no_newline [of b] show ?thesis
      by auto
  next
    case False
    obtain c n where dec: "DecodeRuneInString (b # s) = (c, n)"
      by (cases "DecodeRuneInString (b # s)")
    have u: "newline \<notin> set [backslash, CHR ''u'', CHR ''f'', CHR ''f'', CHR ''f'', CHR ''d'']"
      by (simp add: newline_def backslash_def)
    have h: "hex (c mod 16) \<noteq> newline" by (rule hex_not_newline) simp
    then have v: "newline \<notin> set [backslash, CHR ''u'', CHR ''2'', CHR ''0'', CHR ''2'', hex (c mod 16)]"
      by (auto simp add: newline_def backslash_def)
    show ?thesis
    proof (cases "c = RuneError \<and> n = 1")
      case True
      with False dec u 2(2) [OF False dec [symmetric] True] show ?thesis
        by simp
    next
      case bad: False
      have rest: "newline \<notin> set (escapeFrom (drop n (b # s)))"
      proof (cases "c = 0x2028 \<or> c = 0x2029")
        case True
        with 2(3) [OF False dec [symmetric] bad True] show ?thesis by simp
      next
        case F: False
        with 2(4) [OF False dec [symmetric] bad F] show ?thesis by simp
      qed
      have "\<forall>x \<in> set (take n (b # s)). 0x80 \<le> (of_char x :: nat)"
        using DecodeRuneInString_bytes [OF dec _ bad] False by simp
      then have tk: "newline \<notin> set (take n (b # s))"
        by (auto simp add: newline_def)
      show ?thesis
      proof (cases "c = 0x2028 \<or> c = 0x2029")
        case True
        with False dec bad rest v show ?thesis by (auto simp add: RuneError_def)
      next
        case F: False
        with False dec bad rest tk show ?thesis by auto
      qed
    qed
  qed
qed

lemma appendString_no_newline: "newline \<notin> set (appendString s)"
  by (simp add: appendString_def escapeFrom_no_newline) (simp add: dquote_def newline_def)

lemma sequence_Inr: "sequence rs = Inr bs \<Longrightarrow> rs = map Inr bs"
  by (induction rs arbitrary: bs rule: sequence.induct) (auto split: sum.splits)

lemma sequence_map_Inr: "sequence (map Inr bs) = Inr bs"
  by (induction bs) auto

lemma Join_no_newline:
  "newline \<notin> set sep \<Longrightarrow> \<forall>e \<in> set es. newline \<notin> set e \<Longrightarrow> newline \<notin> set (Join es sep)"
  by (induction es sep rule: Join.induct) auto

lemma comma_no_newline: "newline \<notin> set '',''"
  by (simp add: newline_def)

lemma array_no_newline:
  assumes "array rs = Inr b" and "\<forall>r \<in> set rs. \<forall>x. r = Inr x \<longrightarrow> newline \<notin> set x"
  shows "newline \<notin> set b"
proof -
  from assms(1) obtain bs where s: "sequence rs = Inr bs" and b: "b = ''['' @ Join bs '','' @ '']''"
    by (auto simp add: array_def split: sum.splits)
  from sequence_Inr [OF s] assms(2) have "\<forall>e \<in> set bs. newline \<notin> set e" by auto
  with comma_no_newline have "newline \<notin> set (Join bs '','')" by (intro Join_no_newline)
  with b show ?thesis by (simp add: newline_def)
qed

lemma field_no_newline:
  "field kv = Inr x \<Longrightarrow> (\<And>y. snd kv = Inr y \<Longrightarrow> newline \<notin> set y) \<Longrightarrow> newline \<notin> set x"
  using appendString_no_newline [of "fst kv"]
  by (auto simp add: field_def split: sum.splits) (simp add: newline_def)

lemma object_no_newline:
  assumes "object fs = Inr b" and "\<forall>kv \<in> set fs. \<forall>x. snd kv = Inr x \<longrightarrow> newline \<notin> set x"
  shows "newline \<notin> set b"
proof -
  from assms(1) obtain bs where s: "sequence (map field fs) = Inr bs"
    and b: "b = ''{'' @ Join bs '','' @ ''}''"
    by (auto simp add: object_def split: sum.splits)
  have "\<forall>e \<in> set bs. newline \<notin> set e"
  proof
    fix e assume "e \<in> set bs"
    with sequence_Inr [OF s] have "Inr e \<in> set (map field fs)" by auto
    then obtain kv where kv: "kv \<in> set fs" "field kv = Inr e" by auto
    from kv(1) assms(2) have "\<And>y. snd kv = Inr y \<Longrightarrow> newline \<notin> set y" by blast
    with kv(2) show "newline \<notin> set e" by (rule field_no_newline)
  qed
  with comma_no_newline have "newline \<notin> set (Join bs '','')" by (intro Join_no_newline)
  with b show ?thesis by (simp add: newline_def)
qed

lemma Marshal_no_newline: "Marshal v = Inr b \<Longrightarrow> newline \<notin> set b"
proof (induction v arbitrary: b)
  case VNil
  then show ?case by (auto simp add: newline_def)
next
  case (VBool x)
  then show ?case by (cases x) (auto simp add: newline_def)
next
  case (VInt x)
  then show ?case by (auto simp add: FormatInt_no_newline)
next
  case (VString x)
  then show ?case by (auto simp add: appendString_no_newline)
next
  case (VSlice xs)
  from VSlice.prems have "array (map Marshal xs) = Inr b" by simp
  then show ?case
    by (rule array_no_newline) (use VSlice.IH in auto)
next
  case (VMap m)
  from VMap.prems have "object (sort_key fst (map (map_prod id Marshal) m)) = Inr b" by simp
  then show ?case
    by (rule object_no_newline) (use VMap.IH in fastforce)
next
  case (VStruct fs)
  from VStruct.prems have "object (map (map_prod id Marshal) fs) = Inr b" by simp
  then show ?case
    by (rule object_no_newline) (use VStruct.IH in fastforce)
next
  case (VUnsupported t)
  then show ?case by simp
qed


section \<open>Batch headers\<close>

lemma fold_update_map_of:
  "map_of (fold (\<lambda>k m. AList.update k (f k) m) ks m0) k =
     (if k \<in> set ks then Some (f k) else map_of m0 k)"
  by (induction ks arbitrary: m0) (auto simp add: update_conv')

lemma fold_update_distinct:
  "distinct (map fst m0) \<Longrightarrow> distinct (map fst (fold (\<lambda>k m. AList.update k (f k) m) ks m0))"
  by (induction ks arbitrary: m0) (auto simp add: distinct_update)

lemma fold_update_keys:
  "fst ` set (fold (\<lambda>k m. AList.update k (f k) m) ks m0) = fst ` set m0 \<union> set ks"
  by (induction ks arbitrary: m0) (auto simp add: dom_update)

lemma metadata_map_of:
  "map_of (metadata index t docid v) k =
     (if k \<in> set (range_keys v) then Some (Get v k)
      else map_of [(''_index'', index), (''_type'', t), (''_id'', docid)] k)"
  unfolding metadata_def by (rule fold_update_map_of)

lemma metadata_distinct: "distinct (map fst (metadata index t docid v))"
  unfolding metadata_def by (rule fold_update_distinct) simp

lemma metadata_keys:
  "fst ` set (metadata index t docid v) = {''_index'', ''_type'', ''_id''} \<union> set (range_keys v)"
  unfolding metadata_def by (subst fold_update_keys) auto

lemma object_Inr:
  assumes "\<forall>kv \<in> set fs. \<exists>b. snd kv = Inr b"
  shows "\<exists>b. object fs = Inr b"
proof -
  have "\<forall>kv \<in> set fs. field kv = Inr (appendString (fst kv) @ '':'' @ projr (snd kv))"
    using assms by (auto simp add: field_def)
  then have eq: "map field fs = map Inr (map (\<lambda>kv. appendString (fst kv) @ '':'' @ projr (snd kv)) fs)"
    by simp
  show ?thesis
    unfolding object_def eq sequence_map_Inr by simp
qed

lemma Marshal_string_map: "\<exists>b. Marshal (VMap (map (map_prod id VString) m)) = Inr b"
  unfolding Marshal.simps by (rule object_Inr) auto

lemma Marshal_actionMetadata:
  "\<exists>line. Marshal (VMap (actionMetadata action index t docid v)) = Inr line \<and> newline \<notin> set line"
proof -
  obtain b where "Marshal (VMap (map (map_prod id VString) (metadata index t docid v))) = Inr b"
    using Marshal_string_map by blast
  moreover have "Marshal (VMap (actionMetadata action index t docid v)) =
      object [(action, Marshal (VMap (map (map_prod id VString) (metadata index t docid v))))]"
    by (simp add: actionMetadata_def)
  ultimately have "\<exists>line. Marshal (VMap (actionMetadata action index t docid v)) = Inr line"
    using object_Inr [of "[(action, Inr b)]"] by simp
  then show ?thesis using Marshal_no_newline by blast
qed



lemma Encode_Inr: "Marshal v = Inr b \<Longrightarrow> Encode v w = (None, w @ b @ [newline])"
  by (simp add: Encode_def Write_def)

section \<open>What the batch loops compute\<close>

lemma Encode_shift: "Encode v w = (fst (Encode v []), w @ snd (Encode v []))"
  by (cases "Marshal v") (simp_all add: Encode_def Write_def)

lemma SerializeBatchHeader_shift:
  "SerializeBatchHeader op w = (header_error op, w @ header_bytes op)"
  unfolding header_error_def header_bytes_def
  by (cases op)
    (simp_all add: SearchRequest_SerializeBatchHeader_def IndexRequest_SerializeBatchHeader_def
      CreateRequest_SerializeBatchHeader_def UpdateRequest_SerializeBatchHeader_def
      DeleteRequest_SerializeBatchHeader_def Write_def Encode_shift [of _ w])

lemma Serialize_shift: "Serialize op w = (body_error op, w @ body_bytes op)"
  unfolding body_error_def body_bytes_def
  by (cases op)
    (simp_all add: SearchRequest_Serialize_def IndexRequest_Serialize_def
      CreateRequest_Serialize_def UpdateRequest_Serialize_def
      DeleteRequest_Serialize_def Write_def Encode_shift [of _ w])

lemma Bulk_all_ok:
  "\<forall>op \<in> set br. header_error op = None \<and> body_error op = None \<Longrightarrow>
   BulkIndexRequest_Serialize br w = (None, w @ concat (map (\<lambda>op. header_bytes op @ body_bytes op) br))"
  by (induction br arbitrary: w) (simp_all add: SerializeBatchHeader_shift Serialize_shift)

lemma Bulk_append_ok:
  "\<forall>op \<in> set pre. header_error op = None \<and> body_error op = None \<Longrightarrow>
   BulkIndexRequest_Serialize (pre @ rest) w =
     BulkIndexRequest_Serialize rest (w @ concat (map (\<lambda>op. header_bytes op @ body_bytes op) pre))"
  by (induction pre arbitrary: w) (simp_all add: SerializeBatchHeader_shift Serialize_shift)

section \<open>The order of iteration over a map\<close>

lemma sort_key_fst_unique:
  fixes xs ys :: "(string \<times> 'a) list"
  assumes dx: "distinct (map fst xs)" and dy: "distinct (map fst ys)" and eq: "set xs = set ys"
  shows "sort_key fst xs = sort_key fst ys"
proof -
  let ?sx = "sort_key fst xs" and ?sy = "sort_key fst ys"
  from dx have ix: "inj_on fst (set xs)" and "distinct xs" by (simp_all add: distinct_map)
  from dy have "distinct ys" by (simp add: distinct_map)
  have "distinct (map fst ?sx)" using ix \<open>distinct xs\<close> by (simp add: distinct_map)
  moreover have "distinct (map fst ?sy)" using ix eq \<open>distinct ys\<close> by (simp add: distinct_map)
  moreover have "sorted (map fst ?sx)" "sorted (map fst ?sy)" by simp_all
  moreover have "set (map fst ?sx) = set (map fst ?sy)" using eq by simp
  ultimately have "map fst ?sx = map fst ?sy" by (intro sorted_distinct_set_unique)
  moreover have "inj_on fst (set ?sx \<union> set ?sy)" using ix eq by simp
  ultimately show ?thesis by (simp add: inj_on_map_eq_map)
qed

lemma Marshal_VMap_order:
  assumes "distinct (map fst a)" and "distinct (map fst a')" and "set a = set a'"
  shows "Marshal (VMap a) = Marshal (VMap a')"
proof -
  have "sort_key fst (map (map_prod id Marshal) a) = sort_key fst (map (map_prod id Marshal) a')"
  proof (rule sort_key_fst_unique)
    show "distinct (map fst (map (map_prod id Marshal) a))" using assms(1) by (simp add: comp_def)
    show "distinct (map fst (map (map_prod id Marshal) a'))" using assms(2) by (simp add: comp_def)
    show "set (map (map_prod id Marshal) a) = set (map (map_prod id Marshal) a')"
      using assms(3) by simp
  qed
  then show ?thesis by simp
qed

lemma metadata_order:
  assumes "distinct (map fst m)" and "distinct (map fst m')" and "set m = set m'"
  shows "set (metadata index t docid (Some m)) = set (metadata index t docid (Some m'))"
proof -
  from assms have mo: "map_of m = map_of m'" by (simp add: map_of_inject_set)
  from assms(3) have ks: "set (map fst m) = set (map fst m')" by simp
  have "map_of (metadata index t docid (Some m)) = map_of (metadata index t docid (Some m'))"
    by (rule ext) (simp add: metadata_map_of mo ks del: set_map)
  then show ?thesis
    by (simp add: map_of_inject_set metadata_distinct)
qed

lemma actionMetadata_order:
  assumes "distinct (map fst m)" and "distinct (map fst m')" and "set m = set m'"
  shows "Marshal (VMap (actionMetadata action index t docid (Some m))) =
         Marshal (VMap (actionMetadata action index t docid (Some m')))"
proof -
  have "Marshal (VMap (map (map_prod id VString) (metadata index t docid (Some m)))) =
        Marshal (VMap (map (map_prod id VString) (metadata index t docid (Some m'))))"
  proof (rule Marshal_VMap_order)
    show "distinct (map fst (map (map_prod id VString) (metadata index t docid (Some m))))"
      using metadata_distinct [of index t docid "Some m"] by (simp add: comp_def)
    show "distinct (map fst (map (map_prod id VString) (metadata index t docid (Some m'))))"
      using metadata_distinct [of index t docid "Some m'"] by (simp add: comp_def)
    show "set (map (map_prod id VString) (metadata index t docid (Some m))) =
          set (map (map_prod id VString) (metadata index t docid (Some m')))"
      using metadata_order [OF assms] by simp
  qed
  then show ?thesis by (simp add: actionMetadata_def)
qed

lemma Encode_actionMetadata_order:
  assumes "distinct (map fst m)" and "distinct (map fst m')" and "set m = set m'"
  shows "Encode (VMap (actionMetadata action index t docid (Some m))) w =
         Encode (VMap (actionMetadata action index t docid (Some m'))) w"
  unfolding Encode_def actionMetadata_order [OF assms] ..

lemma Encode_VMap_order:
  assumes "distinct (map fst a)" and "distinct (map fst a')" and "set a = set a'"
  shows "Encode (VMap a) w = Encode (VMap a') w"
  unfolding Encode_def Marshal_VMap_order [OF assms] ..





lemma map_of_map_VString:
  "map_of (map (map_prod id VString) m) k = map_option VString (map_of m k)"
  by (induction m) auto

lemma filter_key_distinct:
  "distinct (map fst m) \<Longrightarrow> map_of m k = Some x \<Longrightarrow> filter (\<lambda>kv. fst kv = k) m = [(k, x)]"
proof (induction m)
  case Nil
  then show ?case by simp
next
  case (Cons a m)
  show ?case
  proof (cases "fst a = k")
    case True
    with Cons.prems have "a = (k, x)" by (cases a) simp
    moreover from Cons.prems(1) have "fst a \<notin> fst ` set m" by simp
    with True have "\<forall>kv \<in> set m. fst kv \<noteq> k" by blast
    then have "filter (\<lambda>kv. fst kv = k) m = []" by (simp add: filter_empty_conv)
    ultimately show ?thesis by simp
  next
    case False
    with Cons show ?thesis by (cases a) auto
  qed
qed

lemma Get_first: "map_of pm k = Some (x # xs) \<Longrightarrow> Get (Some pm) k = x"
  by simp

lemma range_keys_map_of: "map_of pm k = Some vs \<Longrightarrow> k \<in> set (range_keys (Some pm))"
  by (auto dest: map_of_SomeD intro: rev_image_eqI)

lemma header_form:
  "\<exists>line m. Encode (VMap (actionMetadata verb index t docid v)) w = (None, w @ line @ [newline])
     \<and> newline \<notin> set line
     \<and> Marshal (VMap [(verb, VMap m)]) = Inr line
     \<and> fst ` set m = {''_index'', ''_type'', ''_id''} \<union> set (range_keys v)
     \<and> (\<forall>k \<in> set (range_keys v). map_of m k = Some (VString (Get v k)))
     \<and> (\<forall>k. k \<notin> set (range_keys v) \<longrightarrow>
           map_of m k = map_of [(''_index'', VString index), (''_type'', VString t),
             (''_id'', VString docid)] k)
     \<and> (\<forall>pm k x xs. v = Some pm \<and> map_of pm k = Some (x # xs) \<longrightarrow>
           map_of m k = Some (VString x))"
proof -
  let ?m = "map (map_prod id VString) (metadata index t docid v)"
  obtain line where l: "Marshal (VMap (actionMetadata verb index t docid v)) = Inr line"
    and nl: "newline \<notin> set line"
    using Marshal_actionMetadata by blast
  have 1: "Encode (VMap (actionMetadata verb index t docid v)) w = (None, w @ line @ [newline])"
    using l by (rule Encode_Inr)
  have 2: "Marshal (VMap [(verb, VMap ?m)]) = Inr line"
    using l by (simp add: actionMetadata_def)
  have 3: "fst ` set ?m = {''_index'', ''_type'', ''_id''} \<union> set (range_keys v)"
    using metadata_keys [of index t docid v] by (simp add: image_image)
  have 4: "\<forall>k \<in> set (range_keys v). map_of ?m k = Some (VString (Get v k))"
    by (simp add: map_of_map_VString metadata_map_of)
  have 5: "\<forall>k. k \<notin> set (range_keys v) \<longrightarrow>
           map_of ?m k = map_of [(''_index'', VString index), (''_type'', VString t),
             (''_id'', VString docid)] k"
    by (simp add: map_of_map_VString metadata_map_of)
  have 6: "\<forall>pm k x xs. v = Some pm \<and> map_of pm k = Some (x # xs) \<longrightarrow>
           map_of ?m k = Some (VString x)"
  proof (intro allI impI)
    fix pm k x xs assume h: "v = Some pm \<and> map_of pm k = Some (x # xs)"
    then have "k \<in> set (range_keys v)" using range_keys_map_of by blast
    with 4 have "map_of ?m k = Some (VString (Get v k))" by blast
    with h show "map_of ?m k = Some (VString x)" by (simp add: Get_first)
  qed
  from 1 nl 2 3 4 5 6 show ?thesis by blast
qed

section \<open>The claims\<close>

subsection \<open>C1: header and body lines of a batch\<close>




subsection \<open>C2: a bulk request stops at the first error\<close>

text \<open>
  Claim C2: \<open>BulkIndexRequest.Serialize\<close> writes header then body of each member in
  order; at the first member \<open>m\<close> whose header or body fails it returns that error, the
  output holding what the members before \<open>m\<close> wrote and what \<open>m\<close> wrote before
  failing, and nothing of the members \<open>post\<close> after it.
\<close>

theorem BulkIndexRequest_Serialize_fail_fast:
  assumes "\<forall>op \<in> set pre. header_error op = None \<and> body_error op = None"
  shows "BulkIndexRequest_Serialize pre w =
           (None, w @ concat (map (\<lambda>op. header_bytes op @ body_bytes op) pre))
       \<and> (header_error m = Some e \<longrightarrow>
            BulkIndexRequest_Serialize (pre @ m # post) w =
              (Some e, w @ concat (map (\<lambda>op. header_bytes op @ body_bytes op) pre)
                 @ header_bytes m))
       \<and> (header_error m = None \<and> body_error m = Some e \<longrightarrow>
            BulkIndexRequest_Serialize (pre @ m # post) w =
              (Some e, w @ concat (map (\<lambda>op. header_bytes op @ body_bytes op) pre)
                 @ header_bytes m @ body_bytes m))"
  using assms
  by (simp add: Bulk_all_ok Bulk_append_ok SerializeBatchHeader_shift Serialize_shift)

theorem BulkIndexRequest_Serialize_fail_fast_witness:
  \<open>BulkIndexRequest_Serialize [IndexOp test_index, IndexOp bad_index, DeleteOp test_delete] [] =
     (Some (UnsupportedTypeError ''chan int''),
      ''{"index":{"_id":"123","_index":"foo","_type":"bar","refresh":"true"}}'' @ [newline]
      @ ''{"name":"John"}'' @ [newline]
      @ ''{"index":{"_id":"7","_index":"foo","_type":"bar"}}'' @ [newline])
   \<and> BulkIndexRequest_Serialize
        [IndexOp test_index, OtherOp (Some (ErrorString ''closed''), ''x'') (None, ''y''),
         DeleteOp test_delete] [] =
     (Some (ErrorString ''closed''),
      ''{"index":{"_id":"123","_index":"foo","_type":"bar","refresh":"true"}}'' @ [newline]
      @ ''{"name":"John"}'' @ [newline] @ ''x'')\<close>
proof -
  have pre: "\<forall>op \<in> set [IndexOp test_index]. header_error op = None \<and> body_error op = None"
    by code_simp
  have m1: "header_error (IndexOp bad_index) = None
      \<and> body_error (IndexOp bad_index) = Some (UnsupportedTypeError ''chan int'')"
    by code_simp
  have m2: "header_error (OtherOp (Some (ErrorString ''closed''), ''x'') (None, ''y''))
      = Some (ErrorString ''closed'')"
    by code_simp
  have o1: \<open>[] @ concat (map (\<lambda>op. header_bytes op @ body_bytes op) [IndexOp test_index])
      @ header_bytes (IndexOp bad_index) @ body_bytes (IndexOp bad_index) =
      ''{"index":{"_id":"123","_index":"foo","_type":"bar","refresh":"true"}}'' @ [newline]
      @ ''{"name":"John"}'' @ [newline]
      @ ''{"index":{"_id":"7","_index":"foo","_type":"bar"}}'' @ [newline]\<close>
    by code_simp
  have o2: \<open>[] @ concat (map (\<lambda>op. header_bytes op @ body_bytes op) [IndexOp test_index])
      @ header_bytes (OtherOp (Some (ErrorString ''closed''), ''x'') (None, ''y'')) =
      ''{"index":{"_id":"123","_index":"foo","_type":"bar","refresh":"true"}}'' @ [newline]
      @ ''{"name":"John"}'' @ [newline] @ ''x''\<close>
    by code_simp
  from BulkIndexRequest_Serialize_fail_fast [OF pre, where m = "IndexOp bad_index"
      and e = "UnsupportedTypeError ''chan int''" and post = "[DeleteOp test_delete]" and w = "[]"] m1
  have 1: "BulkIndexRequest_Serialize ([IndexOp test_index] @ IndexOp bad_index # [DeleteOp test_delete]) [] =
      (Some (UnsupportedTypeError ''chan int''),
       [] @ concat (map (\<lambda>op. header_bytes op @ body_bytes op) [IndexOp test_index])
         @ header_bytes (IndexOp bad_index) @ body_bytes (IndexOp bad_index))"
    by blast
  from BulkIndexRequest_Serialize_fail_fast [OF pre,
      where m = "OtherOp (Some (ErrorString ''closed''), ''x'') (None, ''y'')"
      and e = "ErrorString ''closed''" and post = "[DeleteOp test_delete]" and w = "[]"] m2
  have 2: "BulkIndexRequest_Serialize ([IndexOp test_index]
        @ OtherOp (Some (ErrorString ''closed''), ''x'') (None, ''y'') # [DeleteOp test_delete]) [] =
      (Some (ErrorString ''closed''),
       [] @ concat (map (\<lambda>op. header_bytes op @ body_bytes op) [IndexOp test_index])
         @ header_bytes (OtherOp (Some (ErrorString ''closed''), ''x'') (None, ''y'')))"
    by blast
  from 1 2 show ?thesis
    unfolding o1 o2 by simp
qed

subsection \<open>C3: a multi-search request never returns an error\<close>

text \<open>
  Claim C3: \<open>MultiSearchRequest.Serialize\<close> returns no error whatever its members do;
  for each member that fails one diagnostic is printed, and the loop goes on with the
  next member, so that the output and the log are the concatenation, in member order,
  of what each member writes and of its diagnostic.
\<close>

theorem MultiSearchRequest_Serialize_never_fails:
  "MultiSearchRequest_Serialize r w lg =
     (None, w @ concat (map written r), lg @ concat (map diagnostic r))"
  by (induction r arbitrary: w lg)
    (auto simp add: SerializeBatchHeader_shift Serialize_shift written_def diagnostic_def Printf_def
      split: option.splits)

theorem MultiSearchRequest_Serialize_never_fails_witness:
  \<open>MultiSearchRequest_Serialize
     [OtherOp (Some (ErrorString ''closed''), []) (None, ''y''), SearchOp bad_search,
      SearchOp good_search] [] [] =
     (None,
      ''{"index":["b"]}'' @ [newline] @ ''{"index":["a"]}'' @ [newline] @ ''{"q":"x"}'' @ [newline],
      [''ElasticSearch: MultiSearchRequest Body header: closed'',
       ''ElasticSearch: MultiSearchRequest Body body: json: unsupported type: chan int''])\<close>
  unfolding MultiSearchRequest_Serialize_never_fails by code_simp

subsection \<open>C4: a member whose body fails\<close>

text \<open>
  Claim C4 says that a member whose body fails to serialize contributes nothing to the
  output of a multi-search request, not even its header line. The streaming
  \<open>Serialize\<close> has written the header before the body fails: for a well-formed member
  followed by one whose query cannot be encoded, the output ends with the header line
  of the failing member.
\<close>

theorem multi_search_leaks_header:
  \<open>MultiSearchRequest_Serialize [SearchOp good_search, SearchOp bad_search] [] [] =
     (None,
      ''{"index":["a"]}'' @ [newline] @ ''{"q":"x"}'' @ [newline]
      @ ''{"index":["b"]}'' @ [newline],
      [''ElasticSearch: MultiSearchRequest Body body: json: unsupported type: chan int''])\<close>
  by code_simp

text \<open>
  The buffered \<open>Body\<close> appends header and body only once both have been encoded, and
  leaves the failing member out.
\<close>

lemma multi_search_body_omits_member:
  \<open>MultiSearchRequest_Body [good_search, bad_search] [] =
     ((''{"index":["a"]}'' @ [newline] @ ''{"q":"x"}'' @ [newline], None),
      [''ElasticSearch: MultiSearchRequest Body body: json: unsupported type: chan int''])\<close>
  by code_simp

subsection \<open>C5: the trailing newline\<close>

text \<open>
  Claim C5 says that the body of every multi-search request, the empty one included,
  ends with a newline. The streaming \<open>Serialize\<close> writes nothing for the empty
  request.
\<close>

theorem multi_search_empty_no_newline:
  "MultiSearchRequest_Serialize [] [] [] = (None, [], [])"
  by simp

text \<open>
  The buffered \<open>Body\<close>, whose comment reads "need trailing newline", appends it
  whatever the members are.
\<close>

lemma multi_search_body_empty: "MultiSearchRequest_Body [] [] = (([newline], None), [])"
  by (simp add: MultiSearchRequest_Body_def)

lemma MultiSearchRequest_Body_trailing_newline:
  "\<exists>b lg'. MultiSearchRequest_Body r lg = ((b @ [newline], None), lg')"
  by (simp add: MultiSearchRequest_Body_def split: prod.splits)

subsection \<open>C6: the batch header of a write request\<close>

text \<open>
  Claim C6: for an index, create, update or delete request \<open>SerializeBatchHeader\<close>
  never fails and writes exactly one line, the encoding of the one-entry map from the
  verb to a metadata map \<open>m\<close>. The keys of \<open>m\<close> are \<open>_index\<close>, \<open>_type\<close>, \<open>_id\<close> and the
  keys of the options; every value is a single string; an option key carries
  \<open>Get\<close> of the options at that key, which for several values is the first one; the
  other keys carry the fields of the request.
\<close>

theorem SerializeBatchHeader_write_line:
  "let header = (\<lambda>verb index t docid v res.
         \<exists>line m. res = (None, w @ line @ [newline])
           \<and> newline \<notin> set line
           \<and> Marshal (VMap [(verb, VMap m)]) = Inr line
           \<and> fst ` set m = {''_index'', ''_type'', ''_id''} \<union> set (range_keys v)
           \<and> (\<forall>k \<in> set (range_keys v). map_of m k = Some (VString (Get v k)))
           \<and> (\<forall>k. k \<notin> set (range_keys v) \<longrightarrow>
                 map_of m k = map_of [(''_index'', VString index), (''_type'', VString t),
                   (''_id'', VString docid)] k)
           \<and> (\<forall>pm k x xs. v = Some pm \<and> map_of pm k = Some (x # xs) \<longrightarrow>
                 map_of m k = Some (VString x)))
   in header ''index'' (IndexRequest.Index ri) (IndexRequest.Type ri) (IndexRequest.Id ri)
        (IndexRequest.Params ri) (SerializeBatchHeader (IndexOp ri) w)
    \<and> header ''create'' (CreateRequest.Index rc) (CreateRequest.Type rc) (CreateRequest.Id rc)
        (CreateRequest.Params rc) (SerializeBatchHeader (CreateOp rc) w)
    \<and> header ''update'' (UpdateRequest.Index ru) (UpdateRequest.Type ru) (UpdateRequest.Id ru)
        (UpdateRequest.Params ru) (SerializeBatchHeader (UpdateOp ru) w)
    \<and> header ''delete'' (DeleteRequest.Index rd) (DeleteRequest.Type rd) (DeleteRequest.Id rd)
        (DeleteRequest.Params rd) (SerializeBatchHeader (DeleteOp rd) w)"
  unfolding Let_def SerializeBatchHeader.simps IndexRequest_SerializeBatchHeader_def
    CreateRequest_SerializeBatchHeader_def UpdateRequest_SerializeBatchHeader_def
    DeleteRequest_SerializeBatchHeader_def
  by (intro conjI header_form)

theorem SerializeBatchHeader_write_line_witness:
  \<open>(\<exists>line. SerializeBatchHeader (IndexOp bad_index) [] = (None, [] @ line @ [newline])
       \<and> newline \<notin> set line)
   \<and> SerializeBatchHeader (IndexOp bad_index) [] =
       (None, ''{"index":{"_id":"7","_index":"foo","_type":"bar"}}'' @ [newline])
   \<and> SerializeBatchHeader (CreateOp test_create) [] =
       (None, ''{"create":{"_id":"123","_index":"foo","_type":"bar","refresh":"true"}}'' @ [newline])
   \<and> SerializeBatchHeader (UpdateOp test_update) [] =
       (None, ''{"update":{"_id":"123","_index":"foo","_type":"bar","refresh":"true"}}'' @ [newline])
   \<and> SerializeBatchHeader (DeleteOp test_delete) [] =
       (None, ''{"delete":{"_id":"321","_index":"foo","_type":"bar"}}'' @ [newline])\<close>
proof -
  have 1: "\<exists>line. SerializeBatchHeader (IndexOp bad_index) [] = (None, [] @ line @ [newline])
       \<and> newline \<notin> set line"
  proof -
    note a = SerializeBatchHeader_write_line [where w = "[]" and ri = bad_index
        and rc = test_create and ru = test_update and rd = test_delete,
        unfolded Let_def, THEN conjunct1]
    from a obtain line m where "SerializeBatchHeader (IndexOp bad_index) [] =
        (None, [] @ line @ [newline])" and "newline \<notin> set line"
      by (elim exE conjE)
    then show ?thesis by (intro exI conjI)
  qed
  have 2: \<open>SerializeBatchHeader (IndexOp bad_index) [] =
       (None, ''{"index":{"_id":"7","_index":"foo","_type":"bar"}}'' @ [newline])\<close>
    by code_simp
  have 3: \<open>SerializeBatchHeader (CreateOp test_create) [] =
       (None, ''{"create":{"_id":"123","_index":"foo","_type":"bar","refresh":"true"}}'' @ [newline])\<close>
    by code_simp
  have 4: \<open>SerializeBatchHeader (UpdateOp test_update) [] =
       (None, ''{"update":{"_id":"123","_index":"foo","_type":"bar","refresh":"true"}}'' @ [newline])\<close>
    by code_simp
  have 5: \<open>SerializeBatchHeader (DeleteOp test_delete) [] =
       (None, ''{"delete":{"_id":"321","_index":"foo","_type":"bar"}}'' @ [newline])\<close>
    by code_simp
  from 1 2 3 4 5 show ?thesis by (intro conjI)
qed

subsection \<open>C7: the path of a search request\<close>

text \<open>
  Claim C7: \<open>SearchRequest.Path\<close> never reaches its \<open>panic\<close>, and returns one of four
  shapes chosen by which of \<open>Indices\<close> and \<open>Types\<close> is empty. Each list is joined
  with commas as it is given: the join of one element is that element, and the join
  of a longer list is its first element, a comma, and the join of the rest.
\<close>

theorem SearchRequest_Path_shapes:
  "SearchRequest_Path r =
     Inr (if Indices r = [] \<and> Types r = [] then ''/_search''
          else if Types r = [] then ''/'' @ Join (Indices r) '','' @ ''/_search''
          else if Indices r = [] then ''/_all/'' @ Join (Types r) '','' @ ''/_search''
          else ''/'' @ Join (Indices r) '','' @ ''/'' @ Join (Types r) '','' @ ''/_search'')
   \<and> Join [x] '','' = x
   \<and> (ys \<noteq> [] \<longrightarrow> Join (x # ys) '','' = x @ '','' @ Join ys '','')"
proof -
  have "ys \<noteq> [] \<longrightarrow> Join (x # ys) '','' = x @ '','' @ Join ys '',''"
  proof (cases ys)
    case Nil
    then show ?thesis by simp
  next
    case (Cons y zs)
    then show ?thesis by (cases zs) simp_all
  qed
  then show ?thesis by (simp add: SearchRequest_Path_def)
qed

theorem SearchRequest_Path_shapes_witness:
  "SearchRequest_Path \<lparr>Indices = [], Types = [], Query = VNil, SearchRequest.Params = None\<rparr>
     = Inr ''/_search''
   \<and> SearchRequest_Path \<lparr>Indices = [''b'', ''a'', ''b''], Types = [], Query = VNil,
        SearchRequest.Params = None\<rparr> = Inr ''/b,a,b/_search''
   \<and> SearchRequest_Path \<lparr>Indices = [], Types = [''t'', ''s''], Query = VNil,
        SearchRequest.Params = None\<rparr> = Inr ''/_all/t,s/_search''
   \<and> SearchRequest_Path \<lparr>Indices = [''a'', ''b''], Types = [''t''], Query = VNil,
        SearchRequest.Params = None\<rparr> = Inr ''/a,b/t/_search''
   \<and> Join [''b'', ''a'', ''b''] '','' = ''b,a,b''"
  using
    SearchRequest_Path_shapes [of "\<lparr>Indices = [], Types = [], Query = VNil,
      SearchRequest.Params = None\<rparr>" "''b''" "[''a'', ''b'']"]
    SearchRequest_Path_shapes [of "\<lparr>Indices = [''b'', ''a'', ''b''], Types = [], Query = VNil,
      SearchRequest.Params = None\<rparr>" "''a''" "[''b'']"]
    SearchRequest_Path_shapes [of "\<lparr>Indices = [], Types = [''t'', ''s''], Query = VNil,
      SearchRequest.Params = None\<rparr>" "''b''" "[]"]
    SearchRequest_Path_shapes [of "\<lparr>Indices = [''a'', ''b''], Types = [''t''], Query = VNil,
      SearchRequest.Params = None\<rparr>" "''b''" "[]"]
  by simp

subsection \<open>C8: the values of a request without options\<close>

text \<open>
  Claim C8 says that \<open>Values\<close> of a request built without options is an empty map,
  never a nil one. \<open>SearchRequest.Values\<close> replaces a nil \<open>Params\<close> by an empty map;
  \<open>IndexRequest.Values\<close>, like that of the other write requests, returns \<open>Params\<close>
  as it is, which is nil.
\<close>

theorem write_request_Values_nil:
  "IndexRequest_Values \<lparr>IndexRequest.Index = ''foo'', IndexRequest.Type = ''bar'',
     IndexRequest.Id = ''123'', IndexRequest.Params = None, IndexRequest.Source = VNil\<rparr> = None
   \<and> CreateRequest_Values \<lparr>CreateRequest.Index = ''foo'', CreateRequest.Type = ''bar'',
     CreateRequest.Id = ''123'', CreateRequest.Params = None, CreateRequest.Source = VNil\<rparr> = None
   \<and> UpdateRequest_Values \<lparr>UpdateRequest.Index = ''foo'', UpdateRequest.Type = ''bar'',
     UpdateRequest.Id = ''123'', UpdateRequest.Params = None, UpdateRequest.Source = VNil\<rparr> = None
   \<and> DeleteRequest_Values \<lparr>DeleteRequest.Index = ''foo'', DeleteRequest.Type = ''bar'',
     DeleteRequest.Id = ''123'', DeleteRequest.Params = None\<rparr> = None
   \<and> SearchRequest_Values \<lparr>Indices = [], Types = [], Query = VNil,
        SearchRequest.Params = None\<rparr> = Some []"
  by (simp add: IndexRequest_Values_def CreateRequest_Values_def UpdateRequest_Values_def
      DeleteRequest_Values_def SearchRequest_Values_def)

subsection \<open>C9: options named like the base fields\<close>

text \<open>
  Claim C9: when the options hold a key \<open>_index\<close>, \<open>_type\<close> or \<open>_id\<close>, the metadata
  of the batch header carries at that key the flattened option, and the field of the
  request is gone: the key has that one entry.
\<close>

theorem actionMetadata_options_override:
  assumes "k \<in> {''_index'', ''_type'', ''_id''}" and "k \<in> set (range_keys v)"
  shows "\<exists>m. actionMetadata action index t docid v = [(action, VMap m)]
           \<and> map_of m k = Some (VString (Get v k))
           \<and> filter (\<lambda>kv. fst kv = k) m = [(k, VString (Get v k))]"
proof -
  let ?m = "map (map_prod id VString) (metadata index t docid v)"
  have a: "actionMetadata action index t docid v = [(action, VMap ?m)]"
    by (simp add: actionMetadata_def)
  have b: "map_of ?m k = Some (VString (Get v k))"
    using assms(2) by (simp add: map_of_map_VString metadata_map_of)
  have "distinct (map fst ?m)"
    using metadata_distinct [of index t docid v] by (simp add: comp_def)
  then have c: "filter (\<lambda>kv. fst kv = k) ?m = [(k, VString (Get v k))]"
    using b by (rule filter_key_distinct)
  from a b c show ?thesis by blast
qed

theorem actionMetadata_options_override_witness:
  \<open>(\<exists>m. actionMetadata ''index'' ''foo'' ''bar'' ''124'' (Some [(''_id'', [''7'', ''8''])]) =
          [(''index'', VMap m)]
        \<and> map_of m ''_id'' = Some (VString ''7'')
        \<and> filter (\<lambda>kv. fst kv = ''_id'') m = [(''_id'', VString ''7'')])
   \<and> SerializeBatchHeader (IndexOp bad_index) [] =
       (None, ''{"index":{"_id":"7","_index":"foo","_type":"bar"}}'' @ [newline])\<close>
proof -
  have k: "''_id'' \<in> {''_index'', ''_type'', ''_id''}" by simp
  have r: "''_id'' \<in> set (range_keys (Some [(''_id'', [''7'', ''8''])]))" by simp
  have g: "Get (Some [(''_id'', [''7'', ''8''])]) ''_id'' = ''7''" by simp
  have 1: "\<exists>m. actionMetadata ''index'' ''foo'' ''bar'' ''124'' (Some [(''_id'', [''7'', ''8''])]) =
          [(''index'', VMap m)]
        \<and> map_of m ''_id'' = Some (VString ''7'')
        \<and> filter (\<lambda>kv. fst kv = ''_id'') m = [(''_id'', VString ''7'')]"
    using actionMetadata_options_override [OF k r, of "''index''" "''foo''" "''bar''" "''124''"]
    unfolding g .
  have 2: \<open>SerializeBatchHeader (IndexOp bad_index) [] =
       (None, ''{"index":{"_id":"7","_index":"foo","_type":"bar"}}'' @ [newline])\<close>
    by code_simp
  from 1 2 show ?thesis by (intro conjI)
qed

subsection \<open>C10: serializing twice\<close>

text \<open>
  Claim C10: serializing the same operation twice gives the same bytes. What a method
  returns and writes does not depend on what the stream already holds, and the header
  of a write request does not depend on the order in which Go iterates over the
  options, nor the body on the order of a source or query that is a map: two
  association lists with the same entries stand for the same map.
\<close>

theorem serialization_deterministic:
  assumes "distinct (map fst m)" and "distinct (map fst m')" and "set m = set m'"
    and "distinct (map fst a)" and "distinct (map fst a')" and "set a = set a'"
  shows "Serialize op w = (body_error op, w @ body_bytes op)
       \<and> SerializeBatchHeader op w = (header_error op, w @ header_bytes op)
       \<and> SerializeBatchHeader (IndexOp (ri\<lparr>IndexRequest.Params := Some m\<rparr>)) w =
           SerializeBatchHeader (IndexOp (ri\<lparr>IndexRequest.Params := Some m'\<rparr>)) w
       \<and> SerializeBatchHeader (CreateOp (rc\<lparr>CreateRequest.Params := Some m\<rparr>)) w =
           SerializeBatchHeader (CreateOp (rc\<lparr>CreateRequest.Params := Some m'\<rparr>)) w
       \<and> SerializeBatchHeader (UpdateOp (ru\<lparr>UpdateRequest.Params := Some m\<rparr>)) w =
           SerializeBatchHeader (UpdateOp (ru\<lparr>UpdateRequest.Params := Some m'\<rparr>)) w
       \<and> SerializeBatchHeader (DeleteOp (rd\<lparr>DeleteRequest.Params := Some m\<rparr>)) w =
           SerializeBatchHeader (DeleteOp (rd\<lparr>DeleteRequest.Params := Some m'\<rparr>)) w
       \<and> Serialize (IndexOp (ri\<lparr>IndexRequest.Source := VMap a\<rparr>)) w =
           Serialize (IndexOp (ri\<lparr>IndexRequest.Source := VMap a'\<rparr>)) w
       \<and> Serialize (CreateOp (rc\<lparr>CreateRequest.Source := VMap a\<rparr>)) w =
           Serialize (CreateOp (rc\<lparr>CreateRequest.Source := VMap a'\<rparr>)) w
       \<and> Serialize (UpdateOp (ru\<lparr>UpdateRequest.Source := VMap a\<rparr>)) w =
           Serialize (UpdateOp (ru\<lparr>UpdateRequest.Source := VMap a'\<rparr>)) w
       \<and> Serialize (SearchOp (rs\<lparr>Query := VMap a\<rparr>)) w =
           Serialize (SearchOp (rs\<lparr>Query := VMap a'\<rparr>)) w"
  by (simp add: Serialize_shift [of op] SerializeBatchHeader_shift [of op]
      IndexRequest_SerializeBatchHeader_def CreateRequest_SerializeBatchHeader_def
      UpdateRequest_SerializeBatchHeader_def DeleteRequest_SerializeBatchHeader_def
      IndexRequest_Serialize_def CreateRequest_Serialize_def UpdateRequest_Serialize_def
      SearchRequest_Serialize_def
      Encode_actionMetadata_order [OF assms(1,2,3)] Encode_VMap_order [OF assms(4,5,6)])

theorem serialization_deterministic_witness:
  \<open>SerializeBatchHeader
      (IndexOp (test_index\<lparr>IndexRequest.Params := Some [(''a'', [''1'']), (''b'', [''2''])]\<rparr>)) [] =
    SerializeBatchHeader
      (IndexOp (test_index\<lparr>IndexRequest.Params := Some [(''b'', [''2'']), (''a'', [''1''])]\<rparr>)) []
   \<and> SerializeBatchHeader
      (IndexOp (test_index\<lparr>IndexRequest.Params := Some [(''b'', [''2'']), (''a'', [''1''])]\<rparr>)) [] =
      (None, ''{"index":{"_id":"123","_index":"foo","_type":"bar","a":"1","b":"2"}}'' @ [newline])
   \<and> Serialize (IndexOp (test_index\<lparr>IndexRequest.Source :=
        VMap [(''name'', VString ''John''), (''age'', VInt 24)]\<rparr>)) [] =
     Serialize (IndexOp (test_index\<lparr>IndexRequest.Source :=
        VMap [(''age'', VInt 24), (''name'', VString ''John'')]\<rparr>)) []
   \<and> Serialize (IndexOp (test_index\<lparr>IndexRequest.Source :=
        VMap [(''name'', VString ''John''), (''age'', VInt 24)]\<rparr>)) [] =
      (None, ''{"age":24,"name":"John"}'' @ [newline])
   \<and> Serialize (IndexOp test_index) (snd (Serialize (IndexOp test_index) [])) =
      (None, ''{"name":"John"}'' @ [newline] @ ''{"name":"John"}'' @ [newline])\<close>
proof -
  have d1: "distinct (map fst [(''a'', [''1'']), (''b'', [''2''])])" by simp
  have d2: "distinct (map fst [(''b'', [''2'']), (''a'', [''1''])])" by simp
  have s: "set [(''a'', [''1'']), (''b'', [''2''])] = set [(''b'', [''2'']), (''a'', [''1''])]"
    by auto
  have e1: "distinct (map fst [(''name'', VString ''John''), (''age'', VInt 24)])" by simp
  have e2: "distinct (map fst [(''age'', VInt 24), (''name'', VString ''John'')])" by simp
  have u: "set [(''name'', VString ''John''), (''age'', VInt 24)] =
      set [(''age'', VInt 24), (''name'', VString ''John'')]"
    by auto
  note t = serialization_deterministic [OF d1 d2 s e1 e2 u]
  have 1: "SerializeBatchHeader
      (IndexOp (test_index\<lparr>IndexRequest.Params := Some [(''a'', [''1'']), (''b'', [''2''])]\<rparr>)) [] =
    SerializeBatchHeader
      (IndexOp (test_index\<lparr>IndexRequest.Params := Some [(''b'', [''2'']), (''a'', [''1''])]\<rparr>)) []"
    using t [where w = "[]" and ri = test_index] by blast
  have 2: \<open>SerializeBatchHeader
      (IndexOp (test_index\<lparr>IndexRequest.Params := Some [(''b'', [''2'']), (''a'', [''1''])]\<rparr>)) [] =
      (None, ''{"index":{"_id":"123","_index":"foo","_type":"bar","a":"1","b":"2"}}'' @ [newline])\<close>
    by code_simp
  have 3: "Serialize (IndexOp (test_index\<lparr>IndexRequest.Source :=
        VMap [(''name'', VString ''John''), (''age'', VInt 24)]\<rparr>)) [] =
     Serialize (IndexOp (test_index\<lparr>IndexRequest.Source :=
        VMap [(''age'', VInt 24), (''name'', VString ''John'')]\<rparr>)) []"
    using t [where w = "[]" and ri = test_index] by blast
  have 4: \<open>Serialize (IndexOp (test_index\<lparr>IndexRequest.Source :=
        VMap [(''name'', VString ''John''), (''age'', VInt 24)]\<rparr>)) [] =
      (None, ''{"age":24,"name":"John"}'' @ [newline])\<close>
    by code_simp
  have b: \<open>body_error (IndexOp test_index) = None\<close>
    \<open>body_bytes (IndexOp test_index) = ''{"name":"John"}'' @ [newline]\<close>
    by code_simp+
  have "Serialize (IndexOp test_index) (snd (Serialize (IndexOp test_index) [])) =
      (body_error (IndexOp test_index),
       ([] @ body_bytes (IndexOp test_index)) @ body_bytes (IndexOp test_index))"
    using t [where w = "[]" and op = "IndexOp test_index"]
      t [where w = "[] @ body_bytes (IndexOp test_index)" and op = "IndexOp test_index"]
    by simp
  then have 5: \<open>Serialize (IndexOp test_index) (snd (Serialize (IndexOp test_index) [])) =
      (None, ''{"name":"John"}'' @ [newline] @ ''{"name":"John"}'' @ [newline])\<close>
    unfolding b by simp
  from 1 2 3 4 5 show ?thesis by (intro conjI)
qed

end
